theory Spec2Isabelle
  imports Complex_Main "HOL-Library.Word" "HOL-Library.Signed_Division" "HOL-Library.Log_Nat"
begin

section \<open>The time package, as far as stopwatch.go uses it\<close>

text \<open>
  \<^verbatim>\<open>time.Duration\<close> is an int64 count of nanoseconds: \<open>+\<close>, \<open>-\<close> and unary minus wrap
  around, \<open>sint\<close> reads the signed value. A \<^verbatim>\<open>time.Time\<close> is an instant, kept as its
  distance in nanoseconds from the zero Time (\<^verbatim>\<open>time.Time{}\<close>); wall-clock and monotonic
  readings are taken to lie on this one timeline, and the range of \<^verbatim>\<open>time.Time\<close> (some 292
  billion years to either side) is taken to have no end. \<^verbatim>\<open>Time.Sub\<close> saturates at the
  smallest and the largest Duration, as the library documents; \<^verbatim>\<open>Time.IsZero\<close> holds of the
  zero instant only; \<^verbatim>\<open>Duration.Microseconds\<close> is the integer division by 1000, which
  truncates. The clock is not part of the state: every method that calls \<^verbatim>\<open>time.Now()\<close> or
  \<^verbatim>\<open>time.Since\<close> takes the reading as its argument \<open>now\<close>.
\<close>

type_synonym Duration = "64 word"
type_synonym Time = int

definition minDuration :: Duration where
  "minDuration = - (2 ^ 63)"

definition maxDuration :: Duration where
  "maxDuration = 2 ^ 63 - 1"

definition zeroTime :: Time where
  "zeroTime = 0"

definition IsZero :: "Time \<Rightarrow> bool" where
  "IsZero t = (t = 0)"

definition Time_Add :: "Time \<Rightarrow> Duration \<Rightarrow> Time" where
  "Time_Add t d = t + sint d"

definition Time_Sub :: "Time \<Rightarrow> Time \<Rightarrow> Duration" where
  "Time_Sub t u =
     (if t - u < - (2 ^ 63) then minDuration
      else if 2 ^ 63 - 1 < t - u then maxDuration
      else word_of_int (t - u))"

definition Since :: "Time \<Rightarrow> Time \<Rightarrow> Duration" where
  "Since now t = Time_Sub now t"

definition Microseconds :: "Duration \<Rightarrow> int" where
  "Microseconds d = sint d sdiv 1000"

section \<open>sync.RWMutex, seen from the calling goroutine\<close>

text \<open>
  The mutex embedded in the Stopwatch is part of its state: whether a writer holds it and
  how many readers do. A call that has to wait for another holder does not return in this
  sequential model, which is the fault \<open>Blocked\<close>; releasing a lock that is not held, or
  calling a nil func, is the fault \<open>Panic\<close>.
\<close>

datatype fault = Blocked | Panic

record RWMutex =
  writer :: bool
  readers :: nat

section \<open>Lap and Stopwatch\<close>

text \<open>
  The file that declares the Lap type is not among the sources; its fields are the four
  that \<^verbatim>\<open>LapWithDataAndTime\<close> fills in. A func value is an \<open>option\<close>, \<open>None\<close> for nil, and so
  is the data map. The type \<open>'v\<close> stands for \<^verbatim>\<open>interface{}\<close>.
\<close>

record 'v Lap =
  lap_formatter :: "(Duration \<Rightarrow> string) option"
  state :: string
  duration :: Duration
  data :: "(string \<rightharpoonup> 'v) option"

record 'v Stopwatch =
  start :: Time
  stop :: Time
  mark :: Duration
  laps :: "'v Lap list"
  formatter :: "(Duration \<Rightarrow> string) option"
  formattingMode :: string
  mu :: RWMutex

definition Lock :: "'v Stopwatch \<Rightarrow> fault + 'v Stopwatch" where
  "Lock s =
     (if writer (mu s) \<or> readers (mu s) \<noteq> 0 then Inl Blocked
      else Inr (s\<lparr>mu := (mu s)\<lparr>writer := True\<rparr>\<rparr>))"

definition Unlock :: "'v Stopwatch \<Rightarrow> fault + 'v Stopwatch" where
  "Unlock s =
     (if writer (mu s) then Inr (s\<lparr>mu := (mu s)\<lparr>writer := False\<rparr>\<rparr>)
      else Inl Panic)"

definition RLock :: "'v Stopwatch \<Rightarrow> fault + 'v Stopwatch" where
  "RLock s =
     (if writer (mu s) then Inl Blocked
      else Inr (s\<lparr>mu := (mu s)\<lparr>readers := readers (mu s) + 1\<rparr>\<rparr>))"

definition RUnlock :: "'v Stopwatch \<Rightarrow> fault + 'v Stopwatch" where
  "RUnlock s =
     (if readers (mu s) = 0 then Inl Panic
      else Inr (s\<lparr>mu := (mu s)\<lparr>readers := readers (mu s) - 1\<rparr>\<rparr>))"

definition FormattingModeJsonArray :: string where
  "FormattingModeJsonArray = ''JSON_ARRAY''"

definition FormattingModeJsonSimpleObject :: string where
  "FormattingModeJsonSimpleObject = ''JSON_OBJECT''"

definition FormattingModeJsonMsObject :: string where
  "FormattingModeJsonMsObject = ''JSON_OBJECT_MS''"

definition defaultFormattingMode :: string where
  "defaultFormattingMode = FormattingModeJsonArray"

text \<open>
  \<^verbatim>\<open>defaultFormatter\<close> is \<^verbatim>\<open>duration.String()\<close> of the standard library, which is taken as
  the parameter \<open>durationString\<close>.
\<close>

definition defaultFormatter :: "(Duration \<Rightarrow> string) \<Rightarrow> Duration \<Rightarrow> string" where
  "defaultFormatter durationString d = durationString d"

definition SetFormatter ::
  "'v Stopwatch \<Rightarrow> (Duration \<Rightarrow> string) option \<Rightarrow> fault + 'v Stopwatch" where
  "SetFormatter s f =
     (case Lock s of Inl e \<Rightarrow> Inl e
      | Inr s1 \<Rightarrow> Unlock (s1\<lparr>formatter := f\<rparr>))"

definition SetFormattingMode :: "'v Stopwatch \<Rightarrow> string \<Rightarrow> fault + 'v Stopwatch" where
  "SetFormattingMode s newMode =
     (case Lock s of Inl e \<Rightarrow> Inl e
      | Inr s1 \<Rightarrow> Unlock (s1\<lparr>formattingMode := newMode\<rparr>))"

definition defaultedFormattingMode :: "string \<Rightarrow> string" where
  "defaultedFormattingMode src = (if src = [] then defaultFormattingMode else src)"

definition Reset :: "'v Stopwatch \<Rightarrow> Duration \<Rightarrow> bool \<Rightarrow> Time \<Rightarrow> fault + 'v Stopwatch" where
  "Reset s offset act now =
     (case Lock s of Inl e \<Rightarrow> Inl e
      | Inr s1 \<Rightarrow>
          Unlock (s1\<lparr>start := Time_Add now (- offset),
                     stop := (if act then zeroTime else now),
                     mark := 0,
                     laps := []\<rparr>))"

definition active :: "'v Stopwatch \<Rightarrow> bool" where
  "active s = IsZero (stop s)"

definition Stop :: "'v Stopwatch \<Rightarrow> Time \<Rightarrow> fault + 'v Stopwatch" where
  "Stop s now =
     (case Lock s of Inl e \<Rightarrow> Inl e
      | Inr s1 \<Rightarrow> Unlock (if active s1 then s1\<lparr>stop := now\<rparr> else s1))"

definition Start :: "'v Stopwatch \<Rightarrow> Time \<Rightarrow> fault + 'v Stopwatch" where
  "Start s now =
     (case Lock s of Inl e \<Rightarrow> Inl e
      | Inr s1 \<Rightarrow>
          Unlock (if \<not> active s1
                  then (let diff = Since now (stop s1)
                        in s1\<lparr>start := Time_Add (start s1) diff, stop := zeroTime\<rparr>)
                  else s1))"

definition ElapsedTime :: "'v Stopwatch \<Rightarrow> Time \<Rightarrow> Duration" where
  "ElapsedTime s now =
     (if active s then Since now (start s) else Time_Sub (stop s) (start s))"

definition ElapsedTimeFrom :: "'v Stopwatch \<Rightarrow> Time \<Rightarrow> Duration" where
  "ElapsedTimeFrom s now =
     (if active s then Time_Sub now (start s) else Time_Sub (stop s) (start s))"


definition LapWithDataAndTime ::
  "'v Stopwatch \<Rightarrow> Time \<Rightarrow> string \<Rightarrow> (string \<rightharpoonup> 'v) option
     \<Rightarrow> fault + ('v Lap \<times> 'v Stopwatch)" where
  "LapWithDataAndTime s now label d =
     (case Lock s of Inl e \<Rightarrow> Inl e
      | Inr s1 \<Rightarrow>
          (let elapsed = ElapsedTimeFrom s1 now;
               lap = \<lparr>lap_formatter = formatter s1,
                      state = label,
                      duration = elapsed - mark s1,
                      data = d\<rparr>;
               s2 = s1\<lparr>mark := elapsed\<rparr>;
               s3 = s2\<lparr>laps := laps s2 @ [lap]\<rparr>
           in case Unlock s3 of Inl e \<Rightarrow> Inl e | Inr s4 \<Rightarrow> Inr (lap, s4)))"

definition LapWithData ::
  "'v Stopwatch \<Rightarrow> Time \<Rightarrow> string \<Rightarrow> (string \<rightharpoonup> 'v) option
     \<Rightarrow> fault + ('v Lap \<times> 'v Stopwatch)" where
  "LapWithData s now label d = LapWithDataAndTime s now label d"

definition Lap :: "'v Stopwatch \<Rightarrow> Time \<Rightarrow> string \<Rightarrow> fault + ('v Lap \<times> 'v Stopwatch)" where
  "Lap s now label = LapWithData s now label None"


text \<open>The lock is free: no goroutine holds it, for reading or for writing.\<close>

definition unlocked :: "'v Stopwatch \<Rightarrow> bool" where
  "unlocked s = (\<not> writer (mu s) \<and> readers (mu s) = 0)"

section \<open>Rendering\<close>

text \<open>
  \<^verbatim>\<open>strings.Join\<close>, and the loop that fills \<^verbatim>\<open>results\<close>: it stops at the first panic.
\<close>

fun Join :: "string list \<Rightarrow> string \<Rightarrow> string" where
  "Join [] sep = []"
| "Join [x] sep = x"
| "Join (x # y # zs) sep = x @ sep @ Join (y # zs) sep"

fun collect :: "('a \<Rightarrow> fault + string) \<Rightarrow> 'a list \<Rightarrow> fault + string list" where
  "collect f [] = Inr []"
| "collect f (x # xs) =
     (case f x of Inl e \<Rightarrow> Inl e
      | Inr r \<Rightarrow> (case collect f xs of Inl e \<Rightarrow> Inl e | Inr rs \<Rightarrow> Inr (r # rs)))"

text \<open>
  float64 values are kept as the rationals they denote. \<open>float64_round\<close> is rounding to
  the nearest value with a 53-bit significand, ties to even; the numbers that occur here
  lie between a thousandth and \<open>2 ^ 63\<close>, far from the subnormal range and from overflow.
  \<open>Sprintf_3f\<close> is the verb \<^verbatim>\<open>%.3f\<close>: the exact value rounded to three decimals, ties to
  even.
\<close>

definition round_half_even :: "rat \<Rightarrow> int" where
  "round_half_even q =
     (let f = \<lfloor>q\<rfloor>; r = q - of_int f
      in if r < 1 / 2 then f
         else if 1 / 2 < r then f + 1
         else if even f then f else f + 1)"

definition ilog2 :: "rat \<Rightarrow> int" where
  "ilog2 q = (if 1 \<le> q then bitlen \<lfloor>q\<rfloor> - 1 else - bitlen (\<lceil>1 / q\<rceil> - 1))"

definition float64_round :: "rat \<Rightarrow> rat" where
  "float64_round q =
     (if q = 0 then 0
      else (let e = ilog2 \<bar>q\<bar> - 52;
                m = round_half_even (\<bar>q\<bar> / 2 powi e)
            in sgn q * of_int m * 2 powi e))"

definition float64_of_int :: "int \<Rightarrow> rat" where
  "float64_of_int i = float64_round (of_int i)"

definition float64_div :: "rat \<Rightarrow> rat \<Rightarrow> rat" where
  "float64_div x y = float64_round (x / y)"

definition digit :: "nat \<Rightarrow> char" where
  "digit n = ''0123456789'' ! n"

fun decimal :: "nat \<Rightarrow> string" where
  "decimal n = (if n < 10 then [digit n] else decimal (n div 10) @ [digit (n mod 10)])"

definition digits3 :: "nat \<Rightarrow> string" where
  "digits3 n = [digit (n div 100 mod 10), digit (n div 10 mod 10), digit (n mod 10)]"

definition Sprintf_3f :: "rat \<Rightarrow> string" where
  "Sprintf_3f v =
     (let n = nat (round_half_even (\<bar>v\<bar> * 1000))
      in (if v < 0 then ''-'' else []) @ decimal (n div 1000) @ ''.'' @ digits3 (n mod 1000))"


definition formatAsObject ::
  "'v Stopwatch \<Rightarrow> ('v Lap \<Rightarrow> fault + string) \<Rightarrow> fault + string" where
  "formatAsObject s lapValueFormatter =
     (case collect lapValueFormatter (laps s) of Inl e \<Rightarrow> Inl e
      | Inr results \<Rightarrow> Inr (''{'' @ Join results '', '' @ ''}''))"

text \<open>
  \<^verbatim>\<open>Lap.String\<close> belongs to the Lap type, whose file is not among the sources: it is the
  parameter \<open>Lap_String\<close>, and may panic as any call of a nil formatter does.
\<close>

definition String ::
  "('v Lap \<Rightarrow> fault + string) \<Rightarrow> 'v Stopwatch \<Rightarrow> fault + (string \<times> 'v Stopwatch)" where
  "String Lap_String s =
     (case RLock s of Inl e \<Rightarrow> Inl e
      | Inr s1 \<Rightarrow>
          (let m = defaultedFormattingMode (formattingMode s1);
               array = (case collect Lap_String (laps s1) of Inl e \<Rightarrow> Inl e
                        | Inr results \<Rightarrow> Inr (''['' @ Join results '', '' @ '']''));
               r = (if m = FormattingModeJsonSimpleObject then
                      formatAsObject s1 (\<lambda>lap.
                        case lap_formatter lap of None \<Rightarrow> Inl Panic
                        | Some f \<Rightarrow>
                            Inr ([CHR 0x22] @ state lap @ [CHR 0x22] @ '':'' @
                                 [CHR 0x22] @ f (duration lap) @ [CHR 0x22]))
                    else if m = FormattingModeJsonMsObject then
                      formatAsObject s1 (\<lambda>lap.
                        Inr ([CHR 0x22] @ state lap @ [CHR 0x22] @ '':'' @
                             Sprintf_3f (float64_div
                               (float64_of_int (Microseconds (duration lap))) 1000)))
                    else if m = FormattingModeJsonArray then array
                    else array)
           in case RUnlock s1 of Inl e \<Rightarrow> Inl e
              | Inr s2 \<Rightarrow> (case r of Inl e \<Rightarrow> Inl e | Inr out \<Rightarrow> Inr (out, s2))))"


section \<open>Construction\<close>

definition zeroStopwatch :: "'v Stopwatch" where
  "zeroStopwatch =
     \<lparr>start = zeroTime, stop = zeroTime, mark = 0, laps = [], formatter = None,
      formattingMode = [], mu = \<lparr>writer = False, readers = 0\<rparr>\<rparr>"

definition New ::
  "(Duration \<Rightarrow> string) \<Rightarrow> Duration \<Rightarrow> bool \<Rightarrow> Time \<Rightarrow> fault + 'v Stopwatch" where
  "New durationString offset act now =
     (case Reset zeroStopwatch offset act now of Inl e \<Rightarrow> Inl e
      | Inr s1 \<Rightarrow>
          (case SetFormatter s1 (Some (defaultFormatter durationString)) of Inl e \<Rightarrow> Inl e
           | Inr s2 \<Rightarrow> SetFormattingMode s2 defaultFormattingMode))"

section \<open>Sequences of lap recordings\<close>

text \<open>
  A run of Lap-family calls, each given by the clock reading or reference time, the label
  and the data it passes on; the result lists, call by call, the Lap returned and the
  stopwatch after it.
\<close>

fun run_laps ::
  "'v Stopwatch \<Rightarrow> (Time \<times> string \<times> (string \<rightharpoonup> 'v) option) list
     \<Rightarrow> fault + ('v Lap \<times> 'v Stopwatch) list" where
  "run_laps s [] = Inr []"
| "run_laps s ((now, label, d) # rest) =
     (case LapWithDataAndTime s now label d of Inl e \<Rightarrow> Inl e
      | Inr (lap, s') \<Rightarrow>
          (case run_laps s' rest of Inl e \<Rightarrow> Inl e
           | Inr rs \<Rightarrow> Inr ((lap, s') # rs)))"

section \<open>Example stopwatches\<close>

text \<open>
  A formatter for the examples, printing the count of nanoseconds, and three stopwatches:
  one running since instant 100, the same one stopped at instant 130, and the running one
  while another goroutine holds its lock for writing.
\<close>

definition nanoseconds :: "Duration \<Rightarrow> string" where
  "nanoseconds d = (if sint d < 0 then ''-'' else []) @ decimal (nat \<bar>sint d\<bar>) @ ''ns''"

definition sw_running :: "nat Stopwatch" where
  "sw_running =
     \<lparr>start = 100, stop = zeroTime, mark = 0, laps = [],
      formatter = Some (defaultFormatter nanoseconds),
      formattingMode = FormattingModeJsonArray, mu = \<lparr>writer = False, readers = 0\<rparr>\<rparr>"

definition sw_stopped :: "nat Stopwatch" where
  "sw_stopped = sw_running\<lparr>stop := 130\<rparr>"


text \<open>
  The stopwatch that \<open>New\<close> builds at instant 1000, stopped, from the smallest Duration
  as its offset.
\<close>

definition sw_far :: "nat Stopwatch" where
  "sw_far =
     \<lparr>start = 1000 - 2 ^ 63, stop = 1000, mark = 0, laps = [],
      formatter = Some (defaultFormatter nanoseconds),
      formattingMode = FormattingModeJsonArray, mu = \<lparr>writer = False, readers = 0\<rparr>\<rparr>"

text \<open>
  A \<^verbatim>\<open>Lap.String\<close> for the examples (label, colon, formatted duration), and the running
  stopwatch after a lap of 10 nanoseconds and a lap of 1234567 microseconds.
\<close>

definition label_colon_duration :: "'v Lap \<Rightarrow> fault + string" where
  "label_colon_duration lap =
     (case lap_formatter lap of None \<Rightarrow> Inl Panic
      | Some f \<Rightarrow> Inr (state lap @ '': '' @ f (duration lap)))"

definition sw_two_laps :: "nat Stopwatch" where
  "sw_two_laps =
     sw_running\<lparr>mark := 1234567010,
                 laps := [\<lparr>lap_formatter = Some (defaultFormatter nanoseconds), state = ''a'',
                            duration = 10, data = None\<rparr>,
                          \<lparr>lap_formatter = Some (defaultFormatter nanoseconds), state = ''b'',
                            duration = 1234567000, data = None\<rparr>]\<rparr>"

section \<open>Durations and instants\<close>

lemma sint_minDuration: "sint minDuration = - (2 ^ 63)"
  by (simp add: minDuration_def)

lemma sint_maxDuration: "sint maxDuration = 2 ^ 63 - 1"
  by (simp add: maxDuration_def)

lemma sint_word_of_int_64:
  "- (2 ^ 63) \<le> k \<Longrightarrow> k \<le> 2 ^ 63 - 1 \<Longrightarrow> sint (word_of_int k :: 64 word) = k"
  by (simp add: sint_sbintrunc' signed_take_bit_int_eq_self)

lemma sint_range_64: "- (2 ^ 63) \<le> sint (d :: 64 word) \<and> sint d \<le> 2 ^ 63 - 1"
  using sint_ge [of d] sint_lt [of d] by simp

lemma word_of_int_sint_64: "word_of_int (sint d) = (d :: 64 word)"
  by simp

lemma sint_Time_Sub:
  "sint (Time_Sub t u) = max (- (2 ^ 63)) (min (2 ^ 63 - 1) (t - u))"
proof -
  define k where "k = t - u"
  have "sint (if k < - (2 ^ 63) then minDuration
              else if 2 ^ 63 - 1 < k then maxDuration else word_of_int k)
        = max (- (2 ^ 63)) (min (2 ^ 63 - 1) k)"
    using sint_word_of_int_64 [of k]
    by (simp add: sint_minDuration sint_maxDuration)
  then show ?thesis
    by (simp only: Time_Sub_def k_def)
qed

lemma Time_Sub_mono: "t1 \<le> t2 \<Longrightarrow> sint (Time_Sub t1 u) \<le> sint (Time_Sub t2 u)"
  by (simp add: sint_Time_Sub)

lemma sint_neg_64:
  assumes "d \<noteq> minDuration"
  shows "sint (- d :: 64 word) = - sint d"
proof -
  have "sint d \<noteq> - (2 ^ 63)"
  proof
    assume "sint d = - (2 ^ 63)"
    then have "sint d = sint minDuration"
      by (simp add: sint_minDuration)
    then have "d = minDuration"
      by (rule signed_word_eqI)
    with assms show False by simp
  qed
  then have "- (2 ^ 63) \<le> - sint d \<and> - sint d \<le> 2 ^ 63 - 1"
    using sint_range_64 [of d] by simp
  then show ?thesis
    by (simp add: sint_word_minus signed_take_bit_int_eq_self)
qed

lemma Time_Sub_Add_back:
  assumes "d \<noteq> minDuration"
  shows "Time_Sub now (Time_Add now (- d)) = d"
proof -
  have "now - (now + sint (- d)) = sint d"
    by (simp add: sint_neg_64 [OF assms])
  then have "Time_Sub now (Time_Add now (- d)) =
      (if sint d < - (2 ^ 63) then minDuration
       else if 2 ^ 63 - 1 < sint d then maxDuration else word_of_int (sint d))"
    by (simp only: Time_Sub_def Time_Add_def)
  then show ?thesis
    using sint_range_64 [of d] by simp
qed


section \<open>The methods on a stopwatch whose lock is free\<close>

lemma Lock_unlocked: "unlocked s \<Longrightarrow> Lock s = Inr (s\<lparr>mu := (mu s)\<lparr>writer := True\<rparr>\<rparr>)"
  by (simp add: Lock_def unlocked_def)


lemma mu_restored: "unlocked s \<Longrightarrow> (mu s)\<lparr>writer := False\<rparr> = mu s"
  by (simp add: unlocked_def)

lemma Reset_unlocked:
  "unlocked s \<Longrightarrow> Reset s offset act now =
     Inr (s\<lparr>start := Time_Add now (- offset), stop := (if act then zeroTime else now),
            mark := 0, laps := []\<rparr>)"
  by (simp add: Reset_def Lock_unlocked Unlock_def mu_restored)

lemma Stop_unlocked:
  "unlocked s \<Longrightarrow> Stop s now = Inr (if active s then s\<lparr>stop := now\<rparr> else s)"
  by (simp add: Stop_def Lock_unlocked Unlock_def mu_restored active_def)

lemma Start_unlocked:
  "unlocked s \<Longrightarrow> Start s now =
     Inr (if \<not> active s
          then s\<lparr>start := Time_Add (start s) (Since now (stop s)), stop := zeroTime\<rparr>
          else s)"
  by (simp add: Start_def Lock_unlocked Unlock_def mu_restored active_def Let_def)

lemma SetFormatter_unlocked:
  "unlocked s \<Longrightarrow> SetFormatter s f = Inr (s\<lparr>formatter := f\<rparr>)"
  by (simp add: SetFormatter_def Lock_unlocked Unlock_def mu_restored)

lemma SetFormattingMode_unlocked:
  "unlocked s \<Longrightarrow> SetFormattingMode s m = Inr (s\<lparr>formattingMode := m\<rparr>)"
  by (simp add: SetFormattingMode_def Lock_unlocked Unlock_def mu_restored)

lemma LapWithDataAndTime_unlocked:
  assumes "unlocked s"
  shows "LapWithDataAndTime s now label d =
           Inr (\<lparr>lap_formatter = formatter s, state = label,
                  duration = ElapsedTimeFrom s now - mark s, data = d\<rparr>,
                s\<lparr>mark := ElapsedTimeFrom s now,
                  laps := laps s @ [\<lparr>lap_formatter = formatter s, state = label,
                                      duration = ElapsedTimeFrom s now - mark s, data = d\<rparr>]\<rparr>)"
  using assms
  by (simp add: LapWithDataAndTime_def Lock_unlocked Unlock_def Let_def
      ElapsedTimeFrom_def active_def mu_restored)

lemma unlocked_update:
  "unlocked (s\<lparr>start := a\<rparr>) = unlocked s" "unlocked (s\<lparr>stop := a\<rparr>) = unlocked s"
  "unlocked (s\<lparr>mark := m\<rparr>) = unlocked s" "unlocked (s\<lparr>laps := ls\<rparr>) = unlocked s"
  "unlocked (s\<lparr>formatter := f\<rparr>) = unlocked s"
  "unlocked (s\<lparr>formattingMode := fm\<rparr>) = unlocked s"
  by (simp_all add: unlocked_def)

lemma unlocked_after_lap:
  "unlocked s \<Longrightarrow> unlocked (s\<lparr>mark := m, laps := ls\<rparr>)"
  by (simp add: unlocked_def)

lemma ElapsedTimeFrom_fields:
  "start s' = start s \<Longrightarrow> stop s' = stop s \<Longrightarrow> ElapsedTimeFrom s' t = ElapsedTimeFrom s t"
  by (simp add: ElapsedTimeFrom_def active_def)

lemma unlocked_sw_running: "unlocked sw_running"
  by (simp add: unlocked_def sw_running_def)

lemma unlocked_sw_stopped: "unlocked sw_stopped"
  by (simp add: unlocked_def sw_stopped_def sw_running_def)

lemma sw_running_fields:
  "start sw_running = 100" "stop sw_running = zeroTime" "mark sw_running = 0"
  "laps sw_running = []" "formatter sw_running = Some (defaultFormatter nanoseconds)"
  "formattingMode sw_running = FormattingModeJsonArray"
  "mu sw_running = \<lparr>writer = False, readers = 0\<rparr>"
  by (simp_all add: sw_running_def)

lemma sw_stopped_fields:
  "start sw_stopped = 100" "stop sw_stopped = 130" "mark sw_stopped = 0"
  "laps sw_stopped = []" "formatter sw_stopped = Some (defaultFormatter nanoseconds)"
  "formattingMode sw_stopped = FormattingModeJsonArray"
  "mu sw_stopped = \<lparr>writer = False, readers = 0\<rparr>"
  by (simp_all add: sw_stopped_def sw_running_def)

lemma ElapsedTimeFrom_sw_running: "ElapsedTimeFrom sw_running 150 = 50"
  by (simp add: ElapsedTimeFrom_def active_def IsZero_def zeroTime_def sw_running_def Time_Sub_def)

section \<open>Recording a lap\<close>

text \<open>
  C1. On a stopwatch whose lock is free, \<^verbatim>\<open>LapWithDataAndTime\<close> returns a Lap whose duration
  is \<open>ElapsedTimeFrom\<close> of the reference time less the mark before the call, whose state
  and data are the arguments and whose formatter is the stopwatch's; after the call the
  mark is that elapsed time, the Lap is the last of the history, the laps before it and
  all other fields are as they were. \<^verbatim>\<open>Lap\<close> and \<^verbatim>\<open>LapWithData\<close> are the same call with no
  data and with the clock reading for the reference time.
\<close>

theorem LapWithDataAndTime_records:
  assumes "unlocked s"
  shows "\<exists>lap s'. LapWithDataAndTime s now label d = Inr (lap, s')
           \<and> duration lap = ElapsedTimeFrom s now - mark s
           \<and> state lap = label \<and> data lap = d \<and> lap_formatter lap = formatter s
           \<and> mark s' = ElapsedTimeFrom s now
           \<and> laps s' = laps s @ [lap]
           \<and> start s' = start s \<and> stop s' = stop s \<and> formatter s' = formatter s
           \<and> formattingMode s' = formattingMode s \<and> mu s' = mu s
           \<and> LapWithData s now label d = LapWithDataAndTime s now label d
           \<and> Lap s now label = LapWithDataAndTime s now label None"
  by (simp add: LapWithDataAndTime_unlocked [OF assms] LapWithData_def Lap_def)

theorem LapWithDataAndTime_records_witness:
  "unlocked sw_running
   \<and> (\<exists>lap s'. LapWithDataAndTime sw_running 150 ''a'' None = Inr (lap, s')
         \<and> duration lap = 50 \<and> state lap = ''a'' \<and> data lap = None
         \<and> lap_formatter lap = Some (defaultFormatter nanoseconds)
         \<and> mark s' = 50 \<and> laps s' = [lap])"
  using LapWithDataAndTime_records [OF unlocked_sw_running, of 150 "''a''" None]
  by (auto simp: unlocked_sw_running ElapsedTimeFrom_sw_running sw_running_fields)


section \<open>Runs of lap recordings\<close>

lemma run_laps_total:
  assumes "unlocked s"
  shows "\<exists>rs. run_laps s reqs = Inr rs \<and> length rs = length reqs
           \<and> unlocked (last (s # map snd rs))
           \<and> start (last (s # map snd rs)) = start s
           \<and> stop (last (s # map snd rs)) = stop s
           \<and> laps (last (s # map snd rs)) = laps s @ map fst rs
           \<and> mark s + sum_list (map (duration \<circ> fst) rs) = mark (last (s # map snd rs))
           \<and> (reqs \<noteq> [] \<longrightarrow> mark (last (s # map snd rs)) = ElapsedTimeFrom s (fst (last reqs)))"
  using assms
proof (induction reqs arbitrary: s)
  case Nil
  then show ?case by simp
next
  case (Cons r rest)
  obtain now label d where r: "r = (now, label, d)"
    by (cases r) auto
  let ?lap = "\<lparr>lap_formatter = formatter s, state = label,
                duration = ElapsedTimeFrom s now - mark s, data = d\<rparr>"
  let ?s1 = "s\<lparr>mark := ElapsedTimeFrom s now, laps := laps s @ [?lap]\<rparr>"
  have step: "LapWithDataAndTime s now label d = Inr (?lap, ?s1)"
    using Cons.prems by (rule LapWithDataAndTime_unlocked)
  have u1: "unlocked ?s1"
    using Cons.prems by (rule unlocked_after_lap)
  from Cons.IH [OF u1] obtain rs where rs: "run_laps ?s1 rest = Inr rs"
    and len: "length rs = length rest"
    and ul: "unlocked (last (?s1 # map snd rs))"
    and st: "start (last (?s1 # map snd rs)) = start ?s1"
    and sp: "stop (last (?s1 # map snd rs)) = stop ?s1"
    and lp: "laps (last (?s1 # map snd rs)) = laps ?s1 @ map fst rs"
    and sm: "mark ?s1 + sum_list (map (duration \<circ> fst) rs) = mark (last (?s1 # map snd rs))"
    and mk: "rest \<noteq> [] \<longrightarrow> mark (last (?s1 # map snd rs)) = ElapsedTimeFrom ?s1 (fst (last rest))"
    by blast
  have run: "run_laps s (r # rest) = Inr ((?lap, ?s1) # rs)"
    by (simp add: r step rs)
  have e1: "ElapsedTimeFrom ?s1 t = ElapsedTimeFrom s t" for t
    by (rule ElapsedTimeFrom_fields) simp_all
  have last_eq: "last (s # map snd ((?lap, ?s1) # rs)) = last (?s1 # map snd rs)"
    by simp
  show ?case
    unfolding run last_eq
    using len ul st sp lp sm mk
    by (auto simp: e1 r comp_def)
qed

text \<open>
  C2. From a mark of zero, a run of one or more Lap-family calls on a stopwatch whose lock
  is free returns laps whose durations add up (as Durations) to \<open>ElapsedTimeFrom\<close> of the
  last reference time, read on the stopwatch as the last call leaves it; the laps are the
  ones the run appends to the history.
\<close>

theorem lap_durations_sum:
  assumes "unlocked s" and "mark s = 0" and "reqs \<noteq> []"
  shows "\<exists>rs. run_laps s reqs = Inr rs \<and> length rs = length reqs
           \<and> sum_list (map (duration \<circ> fst) rs)
               = ElapsedTimeFrom (snd (last rs)) (fst (last reqs))
           \<and> ElapsedTimeFrom (snd (last rs)) (fst (last reqs))
               = ElapsedTimeFrom s (fst (last reqs))
           \<and> laps (snd (last rs)) = laps s @ map fst rs"
proof -
  from run_laps_total [OF assms(1), of reqs] obtain rs where rs: "run_laps s reqs = Inr rs"
    and len: "length rs = length reqs"
    and st: "start (last (s # map snd rs)) = start s"
    and sp: "stop (last (s # map snd rs)) = stop s"
    and lp: "laps (last (s # map snd rs)) = laps s @ map fst rs"
    and sm: "mark s + sum_list (map (duration \<circ> fst) rs) = mark (last (s # map snd rs))"
    and mk: "reqs \<noteq> [] \<longrightarrow> mark (last (s # map snd rs)) = ElapsedTimeFrom s (fst (last reqs))"
    by blast
  from len assms(3) have ne: "rs \<noteq> []"
    by auto
  then have fin: "last (s # map snd rs) = snd (last rs)"
    by (simp add: last_map)
  have e: "ElapsedTimeFrom (snd (last rs)) t = ElapsedTimeFrom s t" for t
    using st sp unfolding fin by (rule ElapsedTimeFrom_fields)
  from sm mk assms(2,3) have "sum_list (map (duration \<circ> fst) rs) = ElapsedTimeFrom s (fst (last reqs))"
    by simp
  with rs len lp show ?thesis
    unfolding fin by (simp add: e)
qed

theorem lap_durations_sum_witness:
  "unlocked sw_running \<and> mark sw_running = 0
   \<and> [(110, ''a'', None), (150, ''b'', None)] \<noteq> []
   \<and> (\<exists>rs. run_laps sw_running [(110, ''a'', None), (150, ''b'', None)] = Inr rs
         \<and> length rs = 2 \<and> sum_list (map (duration \<circ> fst) rs) = 50)"
  using lap_durations_sum [OF unlocked_sw_running, of "[(110, ''a'', None), (150, ''b'', None)]"]
  by (auto simp: unlocked_sw_running sw_running_fields ElapsedTimeFrom_sw_running)


section \<open>Laps on a stopped stopwatch\<close>

lemma ElapsedTimeFrom_stopped:
  "\<not> active s \<Longrightarrow> ElapsedTimeFrom s now = Time_Sub (stop s) (start s)"
  by (simp add: ElapsedTimeFrom_def)

lemma stopped_run_zero:
  assumes "unlocked s" and "\<not> active s" and "mark s = Time_Sub (stop s) (start s)"
  shows "\<exists>rs. run_laps s reqs = Inr rs \<and> length rs = length reqs
           \<and> (\<forall>y\<in>set rs. duration (fst y) = 0)"
  using assms
proof (induction reqs arbitrary: s)
  case Nil
  then show ?case by simp
next
  case (Cons r rest)
  obtain now label d where r: "r = (now, label, d)"
    by (cases r) auto
  let ?lap = "\<lparr>lap_formatter = formatter s, state = label,
                duration = ElapsedTimeFrom s now - mark s, data = d\<rparr>"
  let ?s1 = "s\<lparr>mark := ElapsedTimeFrom s now, laps := laps s @ [?lap]\<rparr>"
  have step: "LapWithDataAndTime s now label d = Inr (?lap, ?s1)"
    using Cons.prems(1) by (rule LapWithDataAndTime_unlocked)
  have el: "ElapsedTimeFrom s now = mark s"
    using Cons.prems(2,3) by (simp add: ElapsedTimeFrom_stopped)
  have u1: "unlocked ?s1"
    using Cons.prems(1) by (rule unlocked_after_lap)
  have a1: "\<not> active ?s1"
    using Cons.prems(2) by (simp add: active_def)
  have m1: "mark ?s1 = Time_Sub (stop ?s1) (start ?s1)"
    using Cons.prems(3) by (simp add: el)
  from Cons.IH [OF u1 a1 m1] obtain rs where rs: "run_laps ?s1 rest = Inr rs"
    and len: "length rs = length rest" and z: "\<forall>y\<in>set rs. duration (fst y) = 0"
    by blast
  have "run_laps s (r # rest) = Inr ((?lap, ?s1) # rs)"
    by (simp add: r step rs)
  moreover have "duration ?lap = 0"
    by (simp add: el)
  ultimately show ?case
    using len z by simp
qed

text \<open>
  C10. On a stopped stopwatch whose lock is free, a Lap-family call leaves the stopwatch
  stopped with its mark at the frozen elapsed time, \<open>stop - start\<close>; and once the mark is
  there, every lap of any further run of Lap-family calls has duration zero, whatever the
  labels, data and reference times.
\<close>

theorem stopped_laps_zero:
  assumes "unlocked s" and "\<not> active s"
  shows "(\<exists>lap s'. LapWithDataAndTime s now label d = Inr (lap, s')
            \<and> \<not> active s' \<and> unlocked s' \<and> mark s' = Time_Sub (stop s') (start s'))
       \<and> (mark s = Time_Sub (stop s) (start s) \<longrightarrow>
            (\<exists>rs. run_laps s reqs = Inr rs \<and> length rs = length reqs
               \<and> (\<forall>y\<in>set rs. duration (fst y) = 0)))"
proof
  show "\<exists>lap s'. LapWithDataAndTime s now label d = Inr (lap, s')
          \<and> \<not> active s' \<and> unlocked s' \<and> mark s' = Time_Sub (stop s') (start s')"
    using assms
    by (simp add: LapWithDataAndTime_unlocked ElapsedTimeFrom_stopped active_def unlocked_def)
next
  show "mark s = Time_Sub (stop s) (start s) \<longrightarrow>
          (\<exists>rs. run_laps s reqs = Inr rs \<and> length rs = length reqs
             \<and> (\<forall>y\<in>set rs. duration (fst y) = 0))"
    using stopped_run_zero [OF assms] by blast
qed

lemma sw_stopped_marked:
  "unlocked (sw_stopped\<lparr>mark := 30\<rparr>)" "\<not> active (sw_stopped\<lparr>mark := 30\<rparr>)"
  "mark (sw_stopped\<lparr>mark := 30\<rparr>)
     = Time_Sub (stop (sw_stopped\<lparr>mark := 30\<rparr>)) (start (sw_stopped\<lparr>mark := 30\<rparr>))"
  by (simp_all add: unlocked_def active_def IsZero_def sw_stopped_fields Time_Sub_def)

theorem stopped_laps_zero_witness:
  "unlocked (sw_stopped\<lparr>mark := 30\<rparr>) \<and> \<not> active (sw_stopped\<lparr>mark := 30\<rparr>)
   \<and> mark (sw_stopped\<lparr>mark := 30\<rparr>)
       = Time_Sub (stop (sw_stopped\<lparr>mark := 30\<rparr>)) (start (sw_stopped\<lparr>mark := 30\<rparr>))
   \<and> (\<exists>rs. run_laps (sw_stopped\<lparr>mark := 30\<rparr>) [(500, ''x'', None), (7, ''y'', None)] = Inr rs
         \<and> map (duration \<circ> fst) rs = [0, 0])"
proof -
  from stopped_laps_zero [OF sw_stopped_marked(1,2),
      of 500 "''x''" None "[(500, ''x'', None), (7, ''y'', None)]"] sw_stopped_marked(3)
  obtain rs where rs: "run_laps (sw_stopped\<lparr>mark := 30\<rparr>) [(500, ''x'', None), (7, ''y'', None)] = Inr rs"
    and len: "length rs = 2" and z: "\<forall>y\<in>set rs. duration (fst y) = 0"
    by auto
  from len obtain a b where "rs = [a, b]"
    by (auto simp: length_Suc_conv numeral_2_eq_2)
  with z have "map (duration \<circ> fst) rs = [0, 0]"
    by simp
  with rs have "\<exists>rs. run_laps (sw_stopped\<lparr>mark := 30\<rparr>) [(500, ''x'', None), (7, ''y'', None)] = Inr rs
         \<and> map (duration \<circ> fst) rs = [0, 0]"
    by (intro exI [of _ rs] conjI)
  then show ?thesis
    by (intro conjI sw_stopped_marked)
qed

section \<open>The mark over a run\<close>

lemma ElapsedTimeFrom_mono:
  "t1 \<le> t2 \<Longrightarrow> sint (ElapsedTimeFrom s t1) \<le> sint (ElapsedTimeFrom s t2)"
  by (simp add: ElapsedTimeFrom_def Time_Sub_mono)

lemma run_laps_marks_sorted:
  assumes "unlocked s" and "sorted (map fst reqs)"
    and "\<forall>r\<in>set reqs. sint (mark s) \<le> sint (ElapsedTimeFrom s (fst r))"
  shows "\<exists>rs. run_laps s reqs = Inr rs \<and> length rs = length reqs
           \<and> sorted (map sint (mark s # map (mark \<circ> snd) rs))"
  using assms
proof (induction reqs arbitrary: s)
  case Nil
  then show ?case by simp
next
  case (Cons r rest)
  obtain now label d where r: "r = (now, label, d)"
    by (cases r) auto
  let ?lap = "\<lparr>lap_formatter = formatter s, state = label,
                duration = ElapsedTimeFrom s now - mark s, data = d\<rparr>"
  let ?s1 = "s\<lparr>mark := ElapsedTimeFrom s now, laps := laps s @ [?lap]\<rparr>"
  have step: "LapWithDataAndTime s now label d = Inr (?lap, ?s1)"
    using Cons.prems(1) by (rule LapWithDataAndTime_unlocked)
  have u1: "unlocked ?s1"
    using Cons.prems(1) by (rule unlocked_after_lap)
  have e1: "ElapsedTimeFrom ?s1 t = ElapsedTimeFrom s t" for t
    by (rule ElapsedTimeFrom_fields) simp_all
  have so: "sorted (map fst rest)"
    using Cons.prems(2) by simp
  have later: "\<forall>r'\<in>set rest. sint (mark ?s1) \<le> sint (ElapsedTimeFrom ?s1 (fst r'))"
    using Cons.prems(2) by (auto simp: e1 r intro: ElapsedTimeFrom_mono)
  from Cons.IH [OF u1 so later] obtain rs where rs: "run_laps ?s1 rest = Inr rs"
    and len: "length rs = length rest"
    and srt: "sorted (map sint (mark ?s1 # map (mark \<circ> snd) rs))"
    by blast
  have run: "run_laps s (r # rest) = Inr ((?lap, ?s1) # rs)"
    by (simp add: r step rs)
  have first: "sint (mark s) \<le> sint (mark ?s1)"
    using Cons.prems(3) by (simp add: r)
  have "sorted (map sint (mark s # mark ?s1 # map (mark \<circ> snd) rs))"
    using first srt by (simp only: list.map sorted2 simp_thms)
  then show ?case
    unfolding run using len by (simp add: comp_def)
qed


lemma ElapsedTimeFrom_running:
  "ElapsedTimeFrom (sw_running\<lparr>mark := m, laps := ls\<rparr>) 100 = 0"
  "ElapsedTimeFrom sw_running 110 = 10"
  "ElapsedTimeFrom (sw_running\<lparr>mark := m, laps := ls\<rparr>) 150 = 50"
  by (simp_all add: ElapsedTimeFrom_def active_def IsZero_def zeroTime_def sw_running_fields
      Time_Sub_def)

text \<open>
  C4, as the claim states it, fails: a reference time before the one of the previous lap
  lowers the mark. The stopwatch runs since instant 100; a lap at 110 sets the mark to 10,
  a lap at 100 sets it to 0, with no Reset.
\<close>

theorem mark_not_monotone_counterexample:
  "map_sum id (map (sint \<circ> mark \<circ> snd))
     (run_laps sw_running [(110, ''a'', None), (100, ''b'', None)]) = Inr [10, 0]"
  by (simp add: LapWithDataAndTime_unlocked unlocked_sw_running unlocked_after_lap
      ElapsedTimeFrom_running)

text \<open>
  C4, amended. Every Lap-family call sets the mark to \<open>ElapsedTimeFrom\<close> of its reference
  time. Over a run of such calls whose reference times do not decrease and none of which
  gives an elapsed time below the mark the run starts from, the mark never decreases (as a
  signed Duration). Of the other methods, Reset sets the mark to zero and Start, Stop,
  SetFormatter and SetFormattingMode leave it as it is.
\<close>

theorem mark_over_run:
  assumes "unlocked s" and "sorted (map fst reqs)"
    and "\<forall>r\<in>set reqs. sint (mark s) \<le> sint (ElapsedTimeFrom s (fst r))"
  shows "(\<exists>rs. run_laps s reqs = Inr rs \<and> length rs = length reqs
            \<and> sorted (map sint (mark s # map (mark \<circ> snd) rs)))
       \<and> (\<exists>lap s'. LapWithDataAndTime s t label d = Inr (lap, s')
            \<and> mark s' = ElapsedTimeFrom s t)
       \<and> (\<exists>s'. Reset s offset act now = Inr s' \<and> mark s' = 0)
       \<and> (\<exists>s'. Start s now = Inr s' \<and> mark s' = mark s)
       \<and> (\<exists>s'. Stop s now = Inr s' \<and> mark s' = mark s)
       \<and> (\<exists>s'. SetFormatter s f = Inr s' \<and> mark s' = mark s)
       \<and> (\<exists>s'. SetFormattingMode s m = Inr s' \<and> mark s' = mark s)"
proof (intro conjI)
  show "\<exists>rs. run_laps s reqs = Inr rs \<and> length rs = length reqs
          \<and> sorted (map sint (mark s # map (mark \<circ> snd) rs))"
    using assms by (rule run_laps_marks_sorted)
  show "\<exists>lap s'. LapWithDataAndTime s t label d = Inr (lap, s') \<and> mark s' = ElapsedTimeFrom s t"
    by (simp add: LapWithDataAndTime_unlocked [OF assms(1)])
  show "\<exists>s'. Reset s offset act now = Inr s' \<and> mark s' = 0"
    by (simp add: Reset_unlocked [OF assms(1)])
  show "\<exists>s'. Start s now = Inr s' \<and> mark s' = mark s"
    by (simp add: Start_unlocked [OF assms(1)])
  show "\<exists>s'. Stop s now = Inr s' \<and> mark s' = mark s"
    by (simp add: Stop_unlocked [OF assms(1)])
  show "\<exists>s'. SetFormatter s f = Inr s' \<and> mark s' = mark s"
    by (simp add: SetFormatter_unlocked [OF assms(1)])
  show "\<exists>s'. SetFormattingMode s m = Inr s' \<and> mark s' = mark s"
    by (simp add: SetFormattingMode_unlocked [OF assms(1)])
qed

theorem mark_over_run_witness:
  "unlocked sw_running
   \<and> sorted (map fst [(110 :: Time, ''a'', None :: (string \<rightharpoonup> nat) option), (150, ''b'', None)])
   \<and> sint (mark sw_running) \<le> sint (ElapsedTimeFrom sw_running 110)
   \<and> sint (mark sw_running) \<le> sint (ElapsedTimeFrom sw_running 150)
   \<and> (\<exists>rs. run_laps sw_running [(110, ''a'', None), (150, ''b'', None)] = Inr rs
         \<and> length rs = length [(110 :: Time, ''a'', None :: (string \<rightharpoonup> nat) option), (150, ''b'', None)]
         \<and> sorted (map sint (mark sw_running # map (mark \<circ> snd) rs)))"
proof -
  have h2: "sorted (map fst [(110 :: Time, ''a'', None :: (string \<rightharpoonup> nat) option), (150, ''b'', None)])"
    by simp
  have h3: "sint (mark sw_running) \<le> sint (ElapsedTimeFrom sw_running 110)"
    and h4: "sint (mark sw_running) \<le> sint (ElapsedTimeFrom sw_running 150)"
    by (simp_all add: sw_running_fields ElapsedTimeFrom_running ElapsedTimeFrom_sw_running)
  have h5: "\<forall>r\<in>set [(110, ''a'', None), (150, ''b'', None)].
              sint (mark sw_running) \<le> sint (ElapsedTimeFrom sw_running (fst r))"
    using h3 h4 by simp
  have "\<exists>rs. run_laps sw_running [(110, ''a'', None), (150, ''b'', None)] = Inr rs
         \<and> length rs = length [(110 :: Time, ''a'', None :: (string \<rightharpoonup> nat) option), (150, ''b'', None)]
         \<and> sorted (map sint (mark sw_running # map (mark \<circ> snd) rs))"
    using mark_over_run [OF unlocked_sw_running h2 h5] by (rule conjunct1)
  then show ?thesis
    by (intro conjI unlocked_sw_running h2 h3 h4)
qed


section \<open>Stopping and resuming\<close>

lemma Time_Sub_diff: "t - u = t' - u' \<Longrightarrow> Time_Sub t u = Time_Sub t' u'"
  by (simp only: Time_Sub_def)

lemma ElapsedTime_stopped: "\<not> active s \<Longrightarrow> ElapsedTime s t = Time_Sub (stop s) (start s)"
  by (simp add: ElapsedTime_def)

text \<open>
  C3. On a stopped stopwatch whose lock is free, \<^verbatim>\<open>Start\<close> at clock reading \<open>now\<close> moves
  \<open>start\<close> forward by \<open>now - stop\<close> and clears \<open>stop\<close> to the zero Time, and the elapsed
  time read at the same instant is the elapsed time that was frozen: the pause does not
  count. The pause is one that a Duration can hold, as the difference of two clock
  readings is.
\<close>

theorem Start_resumes:
  assumes "unlocked s" and "\<not> active s"
    and "- (2 ^ 63) \<le> now - stop s" and "now - stop s \<le> 2 ^ 63 - 1"
  shows "\<exists>s'. Start s now = Inr s'
           \<and> start s' = start s + (now - stop s) \<and> stop s' = zeroTime \<and> active s'
           \<and> ElapsedTime s' now = ElapsedTime s t
           \<and> ElapsedTime s t = Time_Sub (stop s) (start s)
           \<and> mark s' = mark s \<and> laps s' = laps s"
proof -
  let ?s' = "s\<lparr>start := Time_Add (start s) (Since now (stop s)), stop := zeroTime\<rparr>"
  have run: "Start s now = Inr ?s'"
    using assms(1,2) by (simp add: Start_unlocked)
  have shift: "Time_Add (start s) (Since now (stop s)) = start s + (now - stop s)"
    using assms(3,4) by (simp add: Time_Add_def Since_def sint_Time_Sub)
  have act: "active ?s'"
    by (simp add: active_def IsZero_def zeroTime_def)
  have "Time_Sub now (start s + (now - stop s)) = Time_Sub (stop s) (start s)"
    by (rule Time_Sub_diff) simp
  then have el: "ElapsedTime ?s' now = Time_Sub (stop s) (start s)"
    using act shift by (simp add: ElapsedTime_def Since_def)
  show ?thesis
    using run shift act el assms(2) by (simp add: ElapsedTime_stopped)
qed

theorem Start_resumes_witness:
  "unlocked sw_stopped \<and> \<not> active sw_stopped
   \<and> - (2 ^ 63) \<le> 500 - stop sw_stopped \<and> 500 - stop sw_stopped \<le> 2 ^ 63 - 1
   \<and> (\<exists>s'. Start sw_stopped 500 = Inr s' \<and> start s' = 470 \<and> stop s' = zeroTime
         \<and> ElapsedTime s' 500 = 30 \<and> ElapsedTime sw_stopped 130 = 30)"
proof -
  have a: "\<not> active sw_stopped"
    by (simp add: active_def IsZero_def sw_stopped_fields)
  have b: "- (2 ^ 63) \<le> 500 - stop sw_stopped" and c: "500 - stop sw_stopped \<le> 2 ^ 63 - 1"
    by (simp_all add: sw_stopped_fields)
  have e: "Time_Sub 130 100 = 30"
    by (simp add: Time_Sub_def)
  from Start_resumes [OF unlocked_sw_stopped a b c, of 130] obtain s'
    where "Start sw_stopped 500 = Inr s'" and "start s' = 470" and "stop s' = zeroTime"
      and "ElapsedTime s' 500 = 30" and "ElapsedTime sw_stopped 130 = 30"
    by (auto simp: sw_stopped_fields e)
  then have "\<exists>s'. Start sw_stopped 500 = Inr s' \<and> start s' = 470 \<and> stop s' = zeroTime
         \<and> ElapsedTime s' 500 = 30 \<and> ElapsedTime sw_stopped 130 = 30"
    by blast
  then show ?thesis
    by (intro conjI unlocked_sw_stopped a b c)
qed

text \<open>
  C6. On a stopwatch whose lock is free, \<^verbatim>\<open>Stop\<close> on a stopped stopwatch and \<^verbatim>\<open>Start\<close> on an
  active one change nothing. Hence \<^verbatim>\<open>Stop\<close> twice leaves the state that the first \<^verbatim>\<open>Stop\<close>
  left, whose frozen elapsed time is the same at every later reading, and \<^verbatim>\<open>Start\<close> twice
  on an active stopwatch leaves it as it was. The clock reading of the first \<^verbatim>\<open>Stop\<close> is
  not the zero Time.
\<close>

theorem Stop_Start_idempotent:
  assumes "unlocked s" and "\<not> IsZero t1"
  shows "(\<not> active s \<longrightarrow> Stop s t = Inr s)
       \<and> (active s \<longrightarrow> Start s t = Inr s)
       \<and> (\<exists>s1. Stop s t1 = Inr s1 \<and> Stop s1 t2 = Inr s1
             \<and> ElapsedTime s1 t2 = ElapsedTime s1 t1)
       \<and> (active s \<longrightarrow> (\<exists>s1. Start s t1 = Inr s1 \<and> Start s1 t2 = Inr s))"
proof (intro conjI)
  show "\<not> active s \<longrightarrow> Stop s t = Inr s"
    by (simp add: Stop_unlocked [OF assms(1)])
  show "active s \<longrightarrow> Start s t = Inr s"
    by (simp add: Start_unlocked [OF assms(1)])
  show "active s \<longrightarrow> (\<exists>s1. Start s t1 = Inr s1 \<and> Start s1 t2 = Inr s)"
    by (simp add: Start_unlocked [OF assms(1)])
  let ?s1 = "if active s then s\<lparr>stop := t1\<rparr> else s"
  have u1: "unlocked ?s1"
    using assms(1) by (simp add: unlocked_def)
  have a1: "\<not> active ?s1"
    using assms(2) by (simp add: active_def)
  have "Stop s t1 = Inr ?s1"
    by (rule Stop_unlocked [OF assms(1)])
  moreover have "Stop ?s1 t2 = Inr ?s1"
    using a1 by (simp only: Stop_unlocked [OF u1] if_False)
  moreover have "ElapsedTime ?s1 t2 = ElapsedTime ?s1 t1"
    by (simp only: ElapsedTime_stopped [OF a1])
  ultimately show "\<exists>s1. Stop s t1 = Inr s1 \<and> Stop s1 t2 = Inr s1
      \<and> ElapsedTime s1 t2 = ElapsedTime s1 t1"
    by blast
qed

theorem Stop_Start_idempotent_witness:
  "unlocked sw_running \<and> \<not> IsZero 130
   \<and> Stop sw_running 130 = Inr sw_stopped \<and> Stop sw_stopped 170 = Inr sw_stopped
   \<and> Start sw_running 170 = Inr sw_running"
proof -
  have z: "\<not> IsZero 130"
    by (simp add: IsZero_def)
  have a: "active sw_running"
    by (simp add: active_def IsZero_def zeroTime_def sw_running_fields)
  have first: "Stop sw_running 130 = Inr sw_stopped"
    using a by (simp add: Stop_unlocked [OF unlocked_sw_running] sw_stopped_def)
  from Stop_Start_idempotent [OF unlocked_sw_running z, of 170 170] a first
  have "Stop sw_stopped 170 = Inr sw_stopped" and "Start sw_running 170 = Inr sw_running"
    by auto
  with first show ?thesis
    by (intro conjI unlocked_sw_running z)
qed

section \<open>Construction with an offset\<close>

lemma unlocked_zeroStopwatch: "unlocked zeroStopwatch"
  by (simp add: unlocked_def zeroStopwatch_def)

lemma New_eq:
  "New durationString offset act now =
     Inr (zeroStopwatch\<lparr>start := Time_Add now (- offset),
                        stop := (if act then zeroTime else now),
                        mark := 0, laps := [],
                        formatter := Some (defaultFormatter durationString),
                        formattingMode := defaultFormattingMode\<rparr>)"
  by (simp add: New_def Reset_unlocked SetFormatter_unlocked SetFormattingMode_unlocked
      unlocked_zeroStopwatch unlocked_update)

text \<open>
  C5, as the claim states it, fails at one offset: the smallest Duration is its own
  negation, so \<open>New\<close> puts \<open>start\<close> \<open>2 ^ 63\<close> nanoseconds before \<open>now\<close> instead of after it,
  and the elapsed time is the largest Duration.
\<close>

theorem New_minDuration_counterexample:
  "New nanoseconds minDuration False 1000 = Inr sw_far
   \<and> ElapsedTime sw_far 1000 = maxDuration \<and> maxDuration \<noteq> minDuration"
  by (simp add: New_eq sw_far_def zeroStopwatch_def Time_Add_def minDuration_def maxDuration_def
      defaultFormattingMode_def zeroTime_def ElapsedTime_def active_def IsZero_def Time_Sub_def)

text \<open>
  C5, amended. For every offset but the smallest Duration, \<open>New\<close> with \<open>active = false\<close> at
  clock reading \<open>now\<close> sets \<open>start\<close> to \<open>now\<close> less the offset and \<open>stop\<close> to \<open>now\<close>, and the
  elapsed time read at that same instant is the offset, negative offsets included; it is
  the offset at every later reading too, when \<open>now\<close> is not the zero Time.
\<close>

theorem New_stopped_elapsed:
  assumes "offset \<noteq> minDuration"
  shows "\<exists>s. New durationString offset False now = Inr s
           \<and> start s = now - sint offset \<and> stop s = now
           \<and> ElapsedTime s now = offset
           \<and> (\<not> IsZero now \<longrightarrow> ElapsedTime s t = offset)"
proof -
  let ?s = "zeroStopwatch\<lparr>start := Time_Add now (- offset), stop := now, mark := 0, laps := [],
      formatter := Some (defaultFormatter durationString),
      formattingMode := defaultFormattingMode\<rparr>"
  have run: "New durationString offset False now = Inr ?s"
    by (simp add: New_eq)
  have st: "start ?s = now - sint offset"
    by (simp add: Time_Add_def sint_neg_64 [OF assms])
  have diff: "Time_Sub now (Time_Add now (- offset)) = offset"
    by (rule Time_Sub_Add_back [OF assms])
  have e1: "ElapsedTime ?s now = offset"
    by (simp add: ElapsedTime_def Since_def diff)
  have e2: "\<not> IsZero now \<longrightarrow> ElapsedTime ?s t = offset"
    by (simp add: ElapsedTime_def active_def diff)
  show ?thesis
    using run st e1 e2 by (intro exI [of _ ?s] conjI) simp_all
qed

theorem New_stopped_elapsed_witness:
  "(- 5000 :: Duration) \<noteq> minDuration
   \<and> (\<exists>s :: nat Stopwatch. New nanoseconds (- 5000) False 1000 = Inr s
         \<and> start s = 6000 \<and> stop s = 1000 \<and> ElapsedTime s 1000 = - 5000
         \<and> ElapsedTime s 999999 = - 5000)"
proof -
  have h: "(- 5000 :: Duration) \<noteq> minDuration"
    by (simp add: minDuration_def)
  have z: "\<not> IsZero 1000"
    by (simp add: IsZero_def)
  from New_stopped_elapsed [OF h, of nanoseconds 1000 999999] z
  have "\<exists>s :: nat Stopwatch. New nanoseconds (- 5000) False 1000 = Inr s
         \<and> start s = 6000 \<and> stop s = 1000 \<and> ElapsedTime s 1000 = - 5000
         \<and> ElapsedTime s 999999 = - 5000"
    by simp
  with h show ?thesis
    by blast
qed


section \<open>Rendering and the formatting mode\<close>

lemma modes_distinct:
  "FormattingModeJsonArray \<noteq> FormattingModeJsonSimpleObject"
  "FormattingModeJsonArray \<noteq> FormattingModeJsonMsObject"
  "FormattingModeJsonSimpleObject \<noteq> FormattingModeJsonMsObject"
  "FormattingModeJsonArray \<noteq> []" "FormattingModeJsonSimpleObject \<noteq> []"
  "FormattingModeJsonMsObject \<noteq> []"
  by (simp_all add: FormattingModeJsonArray_def FormattingModeJsonSimpleObject_def
      FormattingModeJsonMsObject_def)

lemma defaulted_other:
  assumes "m \<noteq> FormattingModeJsonSimpleObject" and "m \<noteq> FormattingModeJsonMsObject"
  shows "defaultedFormattingMode m \<noteq> FormattingModeJsonSimpleObject"
    and "defaultedFormattingMode m \<noteq> FormattingModeJsonMsObject"
  using assms by (simp_all add: defaultedFormattingMode_def defaultFormattingMode_def modes_distinct)

lemma String_array:
  assumes "m \<noteq> FormattingModeJsonSimpleObject" and "m \<noteq> FormattingModeJsonMsObject"
  shows "map_sum id fst (String Lap_String (s\<lparr>formattingMode := m\<rparr>)) =
           (if writer (mu s) then Inl Blocked
            else case collect Lap_String (laps s) of Inl e \<Rightarrow> Inl e
                 | Inr results \<Rightarrow> Inr (''['' @ Join results '', '' @ '']''))"
  using defaulted_other [OF assms]
  by (simp add: String_def RLock_def RUnlock_def Let_def split: sum.splits)

text \<open>
  C7. With a formatting mode that is neither \<^verbatim>\<open>JSON_OBJECT\<close> nor \<^verbatim>\<open>JSON_OBJECT_MS\<close>, the empty
  string included, \<^verbatim>\<open>String\<close> gives what it gives with the mode \<^verbatim>\<open>JSON_ARRAY\<close>: the same
  text, or the same fault. This holds for every stopwatch and whatever \<^verbatim>\<open>Lap.String\<close> is.
\<close>

theorem String_unknown_mode:
  assumes "m \<noteq> FormattingModeJsonSimpleObject" and "m \<noteq> FormattingModeJsonMsObject"
  shows "map_sum id fst (String Lap_String (s\<lparr>formattingMode := m\<rparr>)) =
           map_sum id fst (String Lap_String (s\<lparr>formattingMode := FormattingModeJsonArray\<rparr>))
       \<and> map_sum id fst (String Lap_String (s\<lparr>formattingMode := []\<rparr>)) =
           map_sum id fst (String Lap_String (s\<lparr>formattingMode := FormattingModeJsonArray\<rparr>))"
  by (simp only: String_array [OF assms] String_array [OF modes_distinct(1,2)]
      String_array [OF modes_distinct(5,6) [symmetric]])


lemma sw_two_laps_fields:
  "laps sw_two_laps = [\<lparr>lap_formatter = Some (defaultFormatter nanoseconds), state = ''a'',
                          duration = 10, data = None\<rparr>,
                        \<lparr>lap_formatter = Some (defaultFormatter nanoseconds), state = ''b'',
                          duration = 1234567000, data = None\<rparr>]"
  "mu sw_two_laps = \<lparr>writer = False, readers = 0\<rparr>"
  by (simp_all add: sw_two_laps_def sw_running_def)

lemma nanoseconds_examples:
  "nanoseconds 10 = ''10ns''" "nanoseconds 1234567000 = ''1234567000ns''"
  by (simp_all add: nanoseconds_def digit_def)

theorem String_unknown_mode_witness:
  "''XML'' \<noteq> FormattingModeJsonSimpleObject \<and> ''XML'' \<noteq> FormattingModeJsonMsObject
   \<and> map_sum id fst (String label_colon_duration (sw_two_laps\<lparr>formattingMode := ''XML''\<rparr>))
       = Inr ''[a: 10ns, b: 1234567000ns]''"
proof -
  have h1: "''XML'' \<noteq> FormattingModeJsonSimpleObject"
    and h2: "''XML'' \<noteq> FormattingModeJsonMsObject"
    by (simp_all add: FormattingModeJsonSimpleObject_def FormattingModeJsonMsObject_def)
  have "map_sum id fst
          (String label_colon_duration (sw_two_laps\<lparr>formattingMode := FormattingModeJsonArray\<rparr>))
        = Inr ''[a: 10ns, b: 1234567000ns]''"
    by (simp add: String_array modes_distinct sw_two_laps_fields label_colon_duration_def
        defaultFormatter_def nanoseconds_examples)
  with String_unknown_mode [OF h1 h2, of label_colon_duration sw_two_laps] h1 h2
  show ?thesis
    by simp
qed


section \<open>Which methods take the lock\<close>

lemma RLock_RUnlock:
  "\<not> writer (mu s) \<Longrightarrow>
     RLock s = Inr (s\<lparr>mu := (mu s)\<lparr>readers := readers (mu s) + 1\<rparr>\<rparr>)
     \<and> RUnlock (s\<lparr>mu := (mu s)\<lparr>readers := readers (mu s) + 1\<rparr>\<rparr>) = Inr s"
  by (simp add: RLock_def RUnlock_def)















section \<open>float64 and the verb \<^verbatim>\<open>%.3f\<close>\<close>



lemma round_half_even_nonneg: "0 \<le> x \<Longrightarrow> 0 \<le> round_half_even x"
  by (auto simp: round_half_even_def Let_def)










lemma decimal_0: "decimal 0 = ''0''"
  by (simp add: digit_def)


section \<open>The ms-object mode\<close>














end
